theory Spec2Isabelle
  imports Complex_Main
begin

section \<open>Coordinate transform and its types (src/utils/range.ts, imported as core/coords and core/types)\<close>

text \<open>
  JavaScript numbers that carry lengths and coordinates are modelled as exact reals:
  rounding of IEEE doubles, NaN and the infinities are outside the model.
\<close>

record PdfRect =
  pdf_x :: real
  pdf_y :: real
  pdf_width :: real
  pdf_height :: real

record CanvasRect =
  cv_x :: real
  cv_y :: real
  cv_w :: real
  cv_h :: real

record ViewportInfo =
  vp_width :: real
  vp_height :: real
  vp_scale :: real
  vp_offsetX :: real
  vp_offsetY :: real

datatype Rotation = Rot0 | Rot90 | Rot180 | Rot270

record PdfPageMeta =
  pg_index :: int
  pg_width :: real
  pg_height :: real
  pg_rotation :: Rotation
  pg_cropBox :: "PdfRect option"
  pg_mediaBox :: PdfRect

text \<open>The expression \<^verbatim>\<open>page.cropBox ?? page.mediaBox\<close> of both conversions.\<close>

definition baseBoxOf :: "PdfPageMeta \<Rightarrow> PdfRect" where
  "baseBoxOf page = (case pg_cropBox page of Some c \<Rightarrow> c | None \<Rightarrow> pg_mediaBox page)"

definition canvasRectToPdfRect :: "CanvasRect \<Rightarrow> PdfPageMeta \<Rightarrow> ViewportInfo \<Rightarrow> PdfRect" where
  "canvasRectToPdfRect rectCanvas page viewport =
     (let baseBox = baseBoxOf page;
          scaleX = pdf_width baseBox / vp_width viewport;
          scaleY = pdf_height baseBox / vp_height viewport;
          relativeX = cv_x rectCanvas;
          relativeY = cv_y rectCanvas;
          width = cv_w rectCanvas * scaleX;
          height = cv_h rectCanvas * scaleY;
          x = pdf_x baseBox + relativeX * scaleX;
          y = pdf_y baseBox + (pdf_height baseBox - (relativeY + cv_h rectCanvas) * scaleY)
      in \<lparr>pdf_x = x, pdf_y = y, pdf_width = width, pdf_height = height\<rparr>)"

definition pdfRectToCanvasRect :: "PdfRect \<Rightarrow> PdfPageMeta \<Rightarrow> ViewportInfo \<Rightarrow> CanvasRect" where
  "pdfRectToCanvasRect rectPdf page viewport =
     (let baseBox = baseBoxOf page;
          scaleX = vp_width viewport / pdf_width baseBox;
          scaleY = vp_height viewport / pdf_height baseBox;
          width = pdf_width rectPdf * scaleX;
          height = pdf_height rectPdf * scaleY;
          x = (pdf_x rectPdf - pdf_x baseBox) * scaleX;
          y = (pdf_height baseBox - (pdf_y rectPdf - pdf_y baseBox) - pdf_height rectPdf) * scaleY
      in \<lparr>cv_x = x, cv_y = y, cv_w = width, cv_h = height\<rparr>)"

definition normalizeRect :: "CanvasRect \<Rightarrow> CanvasRect" where
  "normalizeRect rect =
     \<lparr>cv_x = (if cv_w rect < 0 then cv_x rect + cv_w rect else cv_x rect),
      cv_y = (if cv_h rect < 0 then cv_y rect + cv_h rect else cv_y rect),
      cv_w = \<bar>cv_w rect\<bar>,
      cv_h = \<bar>cv_h rect\<bar>\<rparr>"

text \<open>
  \<^verbatim>\<open>calculateViewport(page, containerWidth, containerHeight, padding = 20)\<close>: the
  optional argument is an \<open>option\<close>, \<open>None\<close> standing for an omitted argument.
\<close>

definition calculateViewport :: "PdfPageMeta \<Rightarrow> real \<Rightarrow> real \<Rightarrow> real option \<Rightarrow> ViewportInfo" where
  "calculateViewport page containerWidth containerHeight paddingArg =
     (let padding = (case paddingArg of None \<Rightarrow> 20 | Some p \<Rightarrow> p);
          availableWidth = containerWidth - padding * 2;
          availableHeight = containerHeight - padding * 2;
          scaleX = availableWidth / pg_width page;
          scaleY = availableHeight / pg_height page;
          scale = min (min scaleX scaleY) 2;
          width = pg_width page * scale;
          height = pg_height page * scale;
          offsetX = (containerWidth - width) / 2;
          offsetY = (containerHeight - height) / 2
      in \<lparr>vp_width = width, vp_height = height, vp_scale = scale,
          vp_offsetX = offsetX, vp_offsetY = offsetY\<rparr>)"

section \<open>Crop overlay (src/components/CropOverlay.tsx): resizing and moving a crop rectangle\<close>

datatype ResizeHandle =
  H_nw | H_n | H_ne | H_e | H_se | H_s | H_sw | H_w | H_move

record DragOrigin =
  do_x :: real
  do_y :: real
  do_rect :: CanvasRect

text \<open>The component state of \<^verbatim>\<open>CropOverlay\<close>: three \<^verbatim>\<open>useState\<close> cells.\<close>

record CropOverlayState =
  co_isDragging :: bool
  co_dragHandle :: "ResizeHandle option"
  co_dragStart :: "DragOrigin option"

text \<open>\<^verbatim>\<open>handleMouseDown(e, handle)\<close>: the drag starts from the canvas image of the crop rectangle.\<close>

definition CropOverlay_handleMouseDown ::
  "PdfRect \<Rightarrow> PdfPageMeta \<Rightarrow> ViewportInfo \<Rightarrow> real \<Rightarrow> real \<Rightarrow> ResizeHandle \<Rightarrow> CropOverlayState" where
  "CropOverlay_handleMouseDown cropRect page viewport clientX clientY handle =
     \<lparr>co_isDragging = True,
      co_dragHandle = Some handle,
      co_dragStart = Some \<lparr>do_x = clientX, do_y = clientY,
                           do_rect = pdfRectToCanvasRect cropRect page viewport\<rparr>\<rparr>"





section \<open>Canvas viewer (CanvasViewer in src/unnamed/part_002) with the project store (src/unnamed/part_007)\<close>

record CropDraft =
  cd_page :: int
  cd_rect :: PdfRect

text \<open>The fields of the project store that the viewer reads and writes.\<close>

record ProjectState =
  ps_pages :: "PdfPageMeta list"
  ps_currentPage :: "int option"
  ps_cropDraft :: "CropDraft option"

definition setCropDraft :: "CropDraft option \<Rightarrow> ProjectState \<Rightarrow> ProjectState" where
  "setCropDraft draft ps = ps\<lparr>ps_cropDraft := draft\<rparr>"

definition clearCropDraft :: "ProjectState \<Rightarrow> ProjectState" where
  "clearCropDraft ps = ps\<lparr>ps_cropDraft := None\<rparr>"

text \<open>
  The viewer's own state. \<open>cvs_canvas\<close> is \<^verbatim>\<open>canvasRef.current\<close>, given by the left and top
  of its bounding rectangle (\<open>None\<close> when the canvas is not mounted).
\<close>

record ViewerState =
  cvs_viewport :: "ViewportInfo option"
  cvs_isDragging :: bool
  cvs_dragStart :: "(real \<times> real) option"
  cvs_dragRect :: "CanvasRect option"
  cvs_canvas :: "(real \<times> real) option"

text \<open>
  \<^verbatim>\<open>const page = currentPage !== null ? pages[currentPage] : null\<close>; an index outside
  the array reads \<^verbatim>\<open>undefined\<close>, which the guards treat like \<^verbatim>\<open>null\<close>.
\<close>

definition currentPageMeta :: "ProjectState \<Rightarrow> PdfPageMeta option" where
  "currentPageMeta ps =
     (case ps_currentPage ps of
        None \<Rightarrow> None
      | Some i \<Rightarrow> if 0 \<le> i \<and> i < int (length (ps_pages ps))
                  then Some (ps_pages ps ! nat i) else None)"

definition CanvasViewer_handleMouseDown ::
  "real \<times> real \<Rightarrow> ViewerState \<times> ProjectState \<Rightarrow> ViewerState \<times> ProjectState" where
  "CanvasViewer_handleMouseDown e sp =
     (case sp of (vs, ps) \<Rightarrow>
        (case cvs_canvas vs of
           None \<Rightarrow> (vs, ps)
         | Some (cleft, ctop) \<Rightarrow>
             if cvs_viewport vs = None then (vs, ps)
             else (let x = fst e - cleft; y = snd e - ctop
                   in (vs\<lparr>cvs_isDragging := True,
                          cvs_dragStart := Some (x, y),
                          cvs_dragRect := Some \<lparr>cv_x = x, cv_y = y, cv_w = 0, cv_h = 0\<rparr>\<rparr>,
                       clearCropDraft ps))))"

definition CanvasViewer_handleMouseMove ::
  "real \<times> real \<Rightarrow> ViewerState \<times> ProjectState \<Rightarrow> ViewerState \<times> ProjectState" where
  "CanvasViewer_handleMouseMove e sp =
     (case sp of (vs, ps) \<Rightarrow>
        if \<not> cvs_isDragging vs then (vs, ps)
        else (case cvs_dragStart vs of
          None \<Rightarrow> (vs, ps)
        | Some dragStart \<Rightarrow>
            (case cvs_canvas vs of
               None \<Rightarrow> (vs, ps)
             | Some (cleft, ctop) \<Rightarrow>
                 (let x = fst e - cleft; y = snd e - ctop;
                      newRect = \<lparr>cv_x = fst dragStart, cv_y = snd dragStart,
                                 cv_w = x - fst dragStart, cv_h = y - snd dragStart\<rparr>
                  in (vs\<lparr>cvs_dragRect := Some newRect\<rparr>, ps)))))"

definition CanvasViewer_handleMouseUp ::
  "ViewerState \<times> ProjectState \<Rightarrow> ViewerState \<times> ProjectState" where
  "CanvasViewer_handleMouseUp sp =
     (case sp of (vs, ps) \<Rightarrow>
        if \<not> cvs_isDragging vs then (vs, ps)
        else (case (cvs_dragRect vs, currentPageMeta ps, cvs_viewport vs, ps_currentPage ps) of
          (Some dragRect, Some page, Some viewport, Some currentPage) \<Rightarrow>
            (let normalizedRect = normalizeRect dragRect
             in (if cv_w normalizedRect < 10 \<or> cv_h normalizedRect < 10
                 then (vs\<lparr>cvs_isDragging := False, cvs_dragStart := None,
                          cvs_dragRect := None\<rparr>, ps)
                 else (let pdfRect = canvasRectToPdfRect normalizedRect page viewport
                       in (vs\<lparr>cvs_isDragging := False, cvs_dragStart := None,
                              cvs_dragRect := None\<rparr>,
                           setCropDraft (Some \<lparr>cd_page = currentPage, cd_rect = pdfRect\<rparr>) ps))))
        | _ \<Rightarrow> (vs, ps)))"

text \<open>
  A whole crop-definition drag: the button goes down on the canvas, the pointer moves
  through \<open>moves\<close>, the button is released. The component re-renders between events,
  so each handler sees the state its predecessor left.
\<close>

definition cropDrag ::
  "real \<times> real \<Rightarrow> (real \<times> real) list \<Rightarrow> ViewerState \<times> ProjectState \<Rightarrow> ViewerState \<times> ProjectState" where
  "cropDrag down moves sp =
     CanvasViewer_handleMouseUp (fold CanvasViewer_handleMouseMove moves
                                   (CanvasViewer_handleMouseDown down sp))"

section \<open>Range expression engine (src/utils/range.ts)\<close>

text \<open>
  Page numbers are JavaScript numbers holding integers; they are modelled as unbounded
  integers (the precision limit of doubles at \<open>2^53\<close> and the exponent notation of
  \<^verbatim>\<open>toString\<close> from \<open>10^21\<close> on are outside the model). Strings are lists of
  characters. The built-in string and number operations the engine calls follow the
  ECMAScript definitions, restricted to ASCII white space.
\<close>

definition isWhiteSpace :: "char \<Rightarrow> bool" where
  "isWhiteSpace c \<longleftrightarrow>
     c = CHR '' '' \<or> c = CHR 0x09 \<or> c = CHR 0x0A \<or> c = CHR 0x0B \<or> c = CHR 0x0C \<or> c = CHR 0x0D"

text \<open>\<^verbatim>\<open>String.prototype.trim\<close>.\<close>

definition js_trim :: "string \<Rightarrow> string" where
  "js_trim s = rev (dropWhile isWhiteSpace (rev (dropWhile isWhiteSpace s)))"

text \<open>\<^verbatim>\<open>String.prototype.split\<close> with a one-character separator: never an empty array.\<close>

fun js_split :: "char \<Rightarrow> string \<Rightarrow> string list" where
  "js_split sep [] = [[]]"
| "js_split sep (c # cs) =
     (if c = sep then [] # js_split sep cs
      else (case js_split sep cs of
              [] \<Rightarrow> [[c]]
            | p # ps \<Rightarrow> (c # p) # ps))"

text \<open>\<^verbatim>\<open>Array.prototype.join\<close>.\<close>

fun js_join :: "string \<Rightarrow> string list \<Rightarrow> string" where
  "js_join sep [] = []"
| "js_join sep [s] = s"
| "js_join sep (s # t # ss) = s @ sep @ js_join sep (t # ss)"

definition isDigit :: "char \<Rightarrow> bool" where
  "isDigit c \<longleftrightarrow> 48 \<le> (of_char c :: nat) \<and> (of_char c :: nat) \<le> 57"

definition digitValue :: "char \<Rightarrow> int" where
  "digitValue c = int (of_char c) - 48"

definition digitsValue :: "string \<Rightarrow> int" where
  "digitsValue ds = foldl (\<lambda>acc c. 10 * acc + digitValue c) 0 ds"

text \<open>
  \<^verbatim>\<open>parseInt(s, 10)\<close>: leading white space is skipped, one sign is read, then the
  longest run of decimal digits; \<open>None\<close> is \<^verbatim>\<open>NaN\<close> (no digit there).
\<close>

definition parseInt :: "string \<Rightarrow> int option" where
  "parseInt s =
     (let S = dropWhile isWhiteSpace s;
          sign = (if S \<noteq> [] \<and> hd S = CHR ''-'' then - 1 else 1);
          S' = (if S \<noteq> [] \<and> (hd S = CHR ''+'' \<or> hd S = CHR ''-'') then tl S else S);
          Z = takeWhile isDigit S'
      in if Z = [] then None else Some (sign * digitsValue Z))"

text \<open>\<^verbatim>\<open>Number.prototype.toString\<close> on an integer: its decimal digits.\<close>

fun digitsOfNat :: "nat \<Rightarrow> string" where
  "digitsOfNat n =
     (if n < 10 then [char_of (48 + n)]
      else digitsOfNat (n div 10) @ [char_of (48 + n mod 10)])"

declare digitsOfNat.simps [simp del]

definition js_toString :: "int \<Rightarrow> string" where
  "js_toString n = (if n < 0 then CHR ''-'' # digitsOfNat (nat (- n)) else digitsOfNat (nat n))"

text \<open>
  \<^verbatim>\<open>Set.prototype.add\<close> on a \<^verbatim>\<open>Set<number>\<close>, kept as the list of its elements in
  insertion order (the order \<^verbatim>\<open>Array.from\<close> reads).
\<close>

definition setAdd :: "int \<Rightarrow> int list \<Rightarrow> int list" where
  "setAdd i result = (if i \<in> set result then result else result @ [i])"

text \<open>
  The loop \<^verbatim>\<open>for (let i = lo; i <= hi; i++) result.add(i)\<close>.
\<close>

function addRange :: "int \<Rightarrow> int \<Rightarrow> int list \<Rightarrow> int list" where
  "addRange i hi result = (if i \<le> hi then addRange (i + 1) hi (setAdd i result) else result)"
  by pat_completeness auto
termination
  by (relation "measure (\<lambda>(i, hi, result). nat (hi + 1 - i))") auto

declare addRange.simps [simp del]

text \<open>
  The body of \<^verbatim>\<open>for (const part of parts)\<close> in \<^verbatim>\<open>parsePageExpr\<close>. The destructuring
  \<^verbatim>\<open>[startStr, endStr]\<close> reads the first two pieces; a missing piece is
  \<^verbatim>\<open>undefined\<close>, which like the empty string is falsy and is written \<open>[]\<close> here.
\<close>

definition processPart :: "int \<Rightarrow> string \<Rightarrow> int list \<Rightarrow> int list" where
  "processPart maxPage part result =
     (if CHR ''-'' \<in> set part then
        (let pieces = map js_trim (js_split CHR ''-'' part);
             startStr = (case pieces of a # _ \<Rightarrow> a | _ \<Rightarrow> []);
             endStr = (case pieces of _ # b # _ \<Rightarrow> b | _ \<Rightarrow> []);
             start = (if startStr \<noteq> [] then parseInt startStr else Some 1);
             end' = (if endStr \<noteq> [] then parseInt endStr else Some maxPage)
         in (case (start, end') of
               (Some s, Some e) \<Rightarrow> addRange (max 1 s) (min maxPage e) result
             | _ \<Rightarrow> result))
      else (case parseInt part of
              Some page \<Rightarrow> (if page \<ge> 1 \<and> page \<le> maxPage then setAdd page result else result)
            | None \<Rightarrow> result))"

fun parseParts :: "int \<Rightarrow> string list \<Rightarrow> int list \<Rightarrow> int list" where
  "parseParts maxPage [] result = result"
| "parseParts maxPage (part # parts) result =
     parseParts maxPage parts (processPart maxPage part result)"

definition parsePageExpr :: "string \<Rightarrow> int \<Rightarrow> int list" where
  "parsePageExpr expr maxPage =
     (if js_trim expr = [] then []
      else (let parts = filter (\<lambda>s. s \<noteq> []) (map js_trim (js_split CHR '','' expr));
                result = parseParts maxPage parts []
            in sort result))"

text \<open>The three-way choice that pushes one run onto \<^verbatim>\<open>ranges\<close> in \<^verbatim>\<open>formatPageRange\<close>.\<close>

definition rangeText :: "int \<Rightarrow> int \<Rightarrow> string" where
  "rangeText start end' =
     (if start = end' then js_toString start
      else if end' = start + 1 then js_toString start @ '','' @ js_toString end'
      else js_toString start @ ''-'' @ js_toString end')"

text \<open>
  The loop of \<^verbatim>\<open>formatPageRange\<close> over \<^verbatim>\<open>sorted[1..]\<close>, followed by the push of the
  last run.
\<close>

fun formatLoop :: "int list \<Rightarrow> int \<Rightarrow> int \<Rightarrow> string list \<Rightarrow> string list" where
  "formatLoop [] start end' ranges = ranges @ [rangeText start end']"
| "formatLoop (p # rest) start end' ranges =
     (if p = end' + 1 then formatLoop rest start p ranges
      else formatLoop rest p p (ranges @ [rangeText start end']))"

definition formatPageRange :: "int list \<Rightarrow> string" where
  "formatPageRange pages =
     (if pages = [] then []
      else (let sorted = sort pages
            in js_join '','' (formatLoop (tl sorted) (hd sorted) (hd sorted) [])))"


section \<open>Task coordinator (src/core/workerManager.ts) and its worker (src/workers/render.worker.ts)\<close>

text \<open>
  The rendering primitives call the PDF rendering library and the browser's canvas; they
  are parameters of the model. The coordinator's thread has \<^verbatim>\<open>renderPageToImageBitmap\<close>,
  \<^verbatim>\<open>renderPageToSVG\<close> and \<^verbatim>\<open>getPdfDocument\<close> of src/core/pdfLoader.ts, the worker its own
  \<^verbatim>\<open>renderPageToBitmap\<close>, \<^verbatim>\<open>renderPageToSVG\<close> and \<^verbatim>\<open>getDocument\<close>. A rejected promise
  or a thrown \<^verbatim>\<open>Error\<close> is \<open>Inl\<close> of its message.

  Each call is awaited before the next one starts; with no request in flight between
  calls, the table \<^verbatim>\<open>pendingMessages\<close> is empty there and is left out of the state.
\<close>

type_synonym Buffer = "nat list"

datatype Rendered = ImageBitmap "nat list" | SvgText string

record Primitives =
  prim_bitmap :: "Buffer \<Rightarrow> int \<Rightarrow> real \<Rightarrow> string + Rendered"
  prim_svg :: "Buffer \<Rightarrow> int \<Rightarrow> real \<Rightarrow> string + Rendered"
  prim_numPages :: "Buffer \<Rightarrow> string + nat"

datatype RenderFormat = Fmt_bitmap | Fmt_svg

datatype TaskType = Type_thumbnail | Type_canvas | Type_export

datatype TaskFormat = Format_png | Format_jpeg | Format_svg

record RenderTask =
  task_id :: string
  task_type :: TaskType
  task_page :: int
  task_scale :: real
  task_format :: "TaskFormat option"
  task_quality :: "real option"

text \<open>A \<^verbatim>\<open>WorkerMessage\<close> without its correlation id: the type tag with its payload.\<close>

datatype WorkerRequest =
  Msg_render Buffer int real RenderFormat
| Msg_export Buffer "RenderTask list"
| Msg_load Buffer

text \<open>The \<^verbatim>\<open>data\<close> of a \<^verbatim>\<open>WorkerResponse\<close>, which the coordinator returns unchecked.\<close>

datatype ResponseData =
  OnePage Rendered
| Pages "Rendered list"
| DocumentInfo nat bool

subsection \<open>The worker\<close>

text \<open>\<^verbatim>\<open>renderMultiplePages\<close>: the loop pushes one result per task and rethrows the first failure.\<close>

fun renderMultiplePages_loop ::
  "Primitives \<Rightarrow> Buffer \<Rightarrow> RenderTask list \<Rightarrow> Rendered list \<Rightarrow> string + Rendered list" where
  "renderMultiplePages_loop P arrayBuffer [] results = Inr results"
| "renderMultiplePages_loop P arrayBuffer (task # tasks) results =
     (case (if task_type task = Type_export \<and> task_format task = Some Format_svg
            then prim_svg P arrayBuffer (task_page task) (task_scale task)
            else prim_bitmap P arrayBuffer (task_page task) (task_scale task)) of
        Inl error \<Rightarrow> Inl error
      | Inr result \<Rightarrow> renderMultiplePages_loop P arrayBuffer tasks (results @ [result]))"

definition renderMultiplePages ::
  "Primitives \<Rightarrow> Buffer \<Rightarrow> RenderTask list \<Rightarrow> string + Rendered list" where
  "renderMultiplePages P arrayBuffer tasks = renderMultiplePages_loop P arrayBuffer tasks []"

text \<open>
  \<^verbatim>\<open>self.onmessage\<close>: \<open>Inr\<close> is the response \<^verbatim>\<open>{success: true, data}\<close>, \<open>Inl\<close> the
  response \<^verbatim>\<open>{success: false, error}\<close> with the message of the caught error.
\<close>

fun worker_onmessage :: "Primitives \<Rightarrow> WorkerRequest \<Rightarrow> string + ResponseData" where
  "worker_onmessage P (Msg_render arrayBuffer pageIndex scale format) =
     (case (if format = Fmt_svg then prim_svg P arrayBuffer pageIndex scale
            else prim_bitmap P arrayBuffer pageIndex scale) of
        Inl error \<Rightarrow> Inl error
      | Inr result \<Rightarrow> Inr (OnePage result))"
| "worker_onmessage P (Msg_export arrayBuffer tasks) =
     (case renderMultiplePages P arrayBuffer tasks of
        Inl error \<Rightarrow> Inl error
      | Inr result \<Rightarrow> Inr (Pages result))"
| "worker_onmessage P (Msg_load arrayBuffer) =
     (case prim_numPages P arrayBuffer of
        Inl error \<Rightarrow> Inl error
      | Inr numPages \<Rightarrow> Inr (DocumentInfo numPages True))"

subsection \<open>The coordinator\<close>

record WorkerManager =
  wm_worker :: bool
  wm_messageId :: nat
  wm_workerSupported :: bool
  wm_workerFailed :: bool

text \<open>
  What the platform does with one dispatch, chosen by the environment: whether
  \<^verbatim>\<open>new Worker\<close> throws, and what becomes of a posted message.
\<close>

datatype Delivery =
  PostThrows string
| NoResponse
| WorkerCrashes
| Responds

record WorkerEnv =
  env_newWorkerThrows :: "string option"
  env_delivery :: Delivery

text \<open>The coordinator's interactions with the worker, recorded in the order they happen.\<close>

datatype WorkerEffect = NewWorker | PostMessage WorkerRequest

record Outcome =
  out_value :: "string + ResponseData"
  out_effects :: "WorkerEffect list"
  out_state :: WorkerManager

text \<open>
  The messages of the coordinator's own errors. Three of them are Chinese text in the
  source; they stand here under ASCII names.
\<close>

definition WORKER_UNAVAILABLE :: string where
  "WORKER_UNAVAILABLE = ''WORKER_UNAVAILABLE''"

definition msg_timeout :: string where
  "msg_timeout = ''worker operation timed out''"

definition msg_cleaned :: string where
  "msg_cleaned = ''worker has been cleaned up''"

definition msg_unknown :: string where
  "msg_unknown = ''unknown error''"

definition cloneForPdf :: "Buffer \<Rightarrow> Buffer" where
  "cloneForPdf buffer = buffer"

text \<open>\<^verbatim>\<open>cleanup()\<close>: the worker is terminated and forgotten; the two flags stay.\<close>

definition cleanup :: "WorkerManager \<Rightarrow> WorkerManager" where
  "cleanup wm = wm\<lparr>wm_worker := False\<rparr>"

text \<open>
  \<^verbatim>\<open>sendMessage(type, payload, timeout)\<close> with \<^verbatim>\<open>initWorker()\<close> inlined. The timeout
  (30 s, 60 s for an export) passes or not as the environment says: \<open>NoResponse\<close> is
  its expiry, \<open>WorkerCrashes\<close> is \<^verbatim>\<open>worker.onerror\<close>, whose \<^verbatim>\<open>cleanup()\<close> rejects the
  pending request.
\<close>

definition sendMessage ::
  "Primitives \<Rightarrow> WorkerEnv \<Rightarrow> WorkerRequest \<Rightarrow> WorkerManager \<Rightarrow> Outcome" where
  "sendMessage W env message wm =
     (if \<not> wm_workerSupported wm \<or> wm_workerFailed wm
      then \<lparr>out_value = Inl WORKER_UNAVAILABLE, out_effects = [], out_state = wm\<rparr>
      else
        (case (if wm_worker wm then None else env_newWorkerThrows env) of
           Some error \<Rightarrow>
             \<lparr>out_value = Inl error, out_effects = [NewWorker], out_state = wm\<rparr>
         | None \<Rightarrow>
             (let created = (if wm_worker wm then [] else [NewWorker]);
                  wm1 = wm\<lparr>wm_worker := True, wm_messageId := wm_messageId wm + 1\<rparr>;
                  effects = created @ [PostMessage message]
              in (case env_delivery env of
                    PostThrows error \<Rightarrow>
                      \<lparr>out_value = Inl error, out_effects = effects, out_state = wm1\<rparr>
                  | NoResponse \<Rightarrow>
                      \<lparr>out_value = Inl msg_timeout, out_effects = effects, out_state = wm1\<rparr>
                  | WorkerCrashes \<Rightarrow>
                      \<lparr>out_value = Inl msg_cleaned, out_effects = effects,
                       out_state = cleanup wm1\<rparr>
                  | Responds \<Rightarrow>
                      (case worker_onmessage W message of
                         Inr data \<Rightarrow>
                           \<lparr>out_value = Inr data, out_effects = effects, out_state = wm1\<rparr>
                       | Inl error \<Rightarrow>
                           \<lparr>out_value = Inl (if error = [] then msg_unknown else error),
                            out_effects = effects, out_state = wm1\<rparr>)))))"

definition renderPageLocally ::
  "Primitives \<Rightarrow> Buffer \<Rightarrow> int \<Rightarrow> real \<Rightarrow> RenderFormat \<Rightarrow> string + Rendered" where
  "renderPageLocally F arrayBuffer pageIndex scale format =
     (let buffer = cloneForPdf arrayBuffer
      in if format = Fmt_svg then prim_svg F buffer pageIndex scale
         else prim_bitmap F buffer pageIndex scale)"

fun exportPagesLocally_loop ::
  "Primitives \<Rightarrow> Buffer \<Rightarrow> RenderTask list \<Rightarrow> Rendered list \<Rightarrow> string + Rendered list" where
  "exportPagesLocally_loop F arrayBuffer [] results = Inr results"
| "exportPagesLocally_loop F arrayBuffer (task # tasks) results =
     (case (if task_format task = Some Format_svg
            then prim_svg F (cloneForPdf arrayBuffer) (task_page task) (task_scale task)
            else prim_bitmap F (cloneForPdf arrayBuffer) (task_page task) (task_scale task)) of
        Inl error \<Rightarrow> Inl error
      | Inr result \<Rightarrow> exportPagesLocally_loop F arrayBuffer tasks (results @ [result]))"

definition exportPagesLocally ::
  "Primitives \<Rightarrow> Buffer \<Rightarrow> RenderTask list \<Rightarrow> string + Rendered list" where
  "exportPagesLocally F arrayBuffer tasks = exportPagesLocally_loop F arrayBuffer tasks []"

definition loadDocumentLocally :: "Primitives \<Rightarrow> Buffer \<Rightarrow> string + ResponseData" where
  "loadDocumentLocally F arrayBuffer =
     (case prim_numPages F (cloneForPdf arrayBuffer) of
        Inl error \<Rightarrow> Inl error
      | Inr numPages \<Rightarrow> Inr (DocumentInfo numPages True))"

text \<open>
  The value a call hands back when it runs on the calling thread only.
\<close>

definition renderPage_foreground ::
  "Primitives \<Rightarrow> Buffer \<Rightarrow> int \<Rightarrow> real \<Rightarrow> RenderFormat \<Rightarrow> string + ResponseData" where
  "renderPage_foreground F arrayBuffer pageIndex scale format =
     (case renderPageLocally F arrayBuffer pageIndex scale format of
        Inl error \<Rightarrow> Inl error
      | Inr result \<Rightarrow> Inr (OnePage result))"

definition exportPages_foreground ::
  "Primitives \<Rightarrow> Buffer \<Rightarrow> RenderTask list \<Rightarrow> string + ResponseData" where
  "exportPages_foreground F arrayBuffer tasks =
     (case exportPagesLocally F arrayBuffer tasks of
        Inl error \<Rightarrow> Inl error
      | Inr results \<Rightarrow> Inr (Pages results))"

text \<open>
  \<^verbatim>\<open>renderPage(arrayBuffer, pageIndex, scale, format = 'bitmap')\<close>. \<open>F\<close> are the
  primitives of the calling thread, \<open>W\<close> those of the worker.
\<close>

definition renderPage ::
  "Primitives \<Rightarrow> Primitives \<Rightarrow> WorkerEnv \<Rightarrow> Buffer \<Rightarrow> int \<Rightarrow> real \<Rightarrow> RenderFormat option \<Rightarrow>
   WorkerManager \<Rightarrow> Outcome" where
  "renderPage F W env arrayBuffer pageIndex scale formatArg wm =
     (let format = (case formatArg of None \<Rightarrow> Fmt_bitmap | Some f \<Rightarrow> f)
      in if \<not> wm_workerSupported wm \<or> wm_workerFailed wm
         then \<lparr>out_value = renderPage_foreground F arrayBuffer pageIndex scale format,
               out_effects = [], out_state = wm\<rparr>
         else (let sent = sendMessage W env
                            (Msg_render (cloneForPdf arrayBuffer) pageIndex scale format) wm
               in (case out_value sent of
                     Inr data \<Rightarrow> sent
                   | Inl error \<Rightarrow>
                       \<lparr>out_value = renderPage_foreground F arrayBuffer pageIndex scale format,
                        out_effects = out_effects sent,
                        out_state = (out_state sent)\<lparr>wm_workerFailed := True\<rparr>\<rparr>)))"

definition exportPages ::
  "Primitives \<Rightarrow> Primitives \<Rightarrow> WorkerEnv \<Rightarrow> Buffer \<Rightarrow> RenderTask list \<Rightarrow>
   WorkerManager \<Rightarrow> Outcome" where
  "exportPages F W env arrayBuffer tasks wm =
     (let requiresDom = list_ex (\<lambda>task. task_format task = Some Format_svg) tasks
      in if requiresDom
         then \<lparr>out_value = exportPages_foreground F arrayBuffer tasks,
               out_effects = [], out_state = wm\<rparr>
         else if \<not> wm_workerSupported wm \<or> wm_workerFailed wm
         then \<lparr>out_value = exportPages_foreground F arrayBuffer tasks,
               out_effects = [], out_state = wm\<rparr>
         else (let sent = sendMessage W env (Msg_export (cloneForPdf arrayBuffer) tasks) wm
               in (case out_value sent of
                     Inr data \<Rightarrow> sent
                   | Inl error \<Rightarrow>
                       \<lparr>out_value = exportPages_foreground F arrayBuffer tasks,
                        out_effects = out_effects sent,
                        out_state = (out_state sent)\<lparr>wm_workerFailed := True\<rparr>\<rparr>)))"

definition loadDocument ::
  "Primitives \<Rightarrow> Primitives \<Rightarrow> WorkerEnv \<Rightarrow> Buffer \<Rightarrow> WorkerManager \<Rightarrow> Outcome" where
  "loadDocument F W env arrayBuffer wm =
     (if \<not> wm_workerSupported wm \<or> wm_workerFailed wm
      then \<lparr>out_value = loadDocumentLocally F arrayBuffer, out_effects = [], out_state = wm\<rparr>
      else (let sent = sendMessage W env (Msg_load (cloneForPdf arrayBuffer)) wm
            in (case out_value sent of
                  Inr data \<Rightarrow> sent
                | Inl error \<Rightarrow>
                    \<lparr>out_value = loadDocumentLocally F arrayBuffer,
                     out_effects = out_effects sent,
                     out_state = (out_state sent)\<lparr>wm_workerFailed := True\<rparr>\<rparr>)))"

subsection \<open>Sequences of calls on one coordinator\<close>

datatype Call =
  RenderPage Buffer int real "RenderFormat option"
| ExportPages Buffer "RenderTask list"
| LoadDocument Buffer

fun perform :: "Primitives \<Rightarrow> Primitives \<Rightarrow> WorkerEnv \<Rightarrow> Call \<Rightarrow> WorkerManager \<Rightarrow> Outcome" where
  "perform F W env (RenderPage arrayBuffer pageIndex scale formatArg) wm =
     renderPage F W env arrayBuffer pageIndex scale formatArg wm"
| "perform F W env (ExportPages arrayBuffer tasks) wm = exportPages F W env arrayBuffer tasks wm"
| "perform F W env (LoadDocument arrayBuffer) wm = loadDocument F W env arrayBuffer wm"

text \<open>What the call computes on the calling thread alone.\<close>

fun foreground :: "Primitives \<Rightarrow> Call \<Rightarrow> string + ResponseData" where
  "foreground F (RenderPage arrayBuffer pageIndex scale formatArg) =
     renderPage_foreground F arrayBuffer pageIndex scale
       (case formatArg of None \<Rightarrow> Fmt_bitmap | Some f \<Rightarrow> f)"
| "foreground F (ExportPages arrayBuffer tasks) = exportPages_foreground F arrayBuffer tasks"
| "foreground F (LoadDocument arrayBuffer) = loadDocumentLocally F arrayBuffer"

text \<open>The message the call posts when it takes the worker path; an export with an SVG task posts none.\<close>

fun dispatched :: "Call \<Rightarrow> WorkerRequest option" where
  "dispatched (RenderPage arrayBuffer pageIndex scale formatArg) =
     Some (Msg_render (cloneForPdf arrayBuffer) pageIndex scale
             (case formatArg of None \<Rightarrow> Fmt_bitmap | Some f \<Rightarrow> f))"
| "dispatched (ExportPages arrayBuffer tasks) =
     (if list_ex (\<lambda>task. task_format task = Some Format_svg) tasks then None
      else Some (Msg_export (cloneForPdf arrayBuffer) tasks))"
| "dispatched (LoadDocument arrayBuffer) = Some (Msg_load (cloneForPdf arrayBuffer))"

text \<open>
  The background path of a call fails: the platform has no worker support, or the
  call's \<^verbatim>\<open>sendMessage\<close> rejects (the worker cannot be created, the dispatch throws, the
  request times out, the worker crashes or answers with an error).
\<close>

definition backgroundFails :: "Primitives \<Rightarrow> WorkerEnv \<Rightarrow> Call \<Rightarrow> WorkerManager \<Rightarrow> bool" where
  "backgroundFails W env call wm \<longleftrightarrow>
     \<not> wm_workerSupported wm \<or>
     (case dispatched call of
        None \<Rightarrow> False
      | Some message \<Rightarrow> isl (out_value (sendMessage W env message wm)))"

datatype Step = Invoke WorkerEnv Call | Cleanup

record Trace =
  tr_values :: "(string + ResponseData) list"
  tr_effects :: "WorkerEffect list"
  tr_state :: WorkerManager

fun run :: "Primitives \<Rightarrow> Primitives \<Rightarrow> Step list \<Rightarrow> WorkerManager \<Rightarrow> Trace" where
  "run F W [] wm = \<lparr>tr_values = [], tr_effects = [], tr_state = wm\<rparr>"
| "run F W (Invoke env call # steps) wm =
     (let out = perform F W env call wm;
          rest = run F W steps (out_state out)
      in \<lparr>tr_values = out_value out # tr_values rest,
          tr_effects = out_effects out @ tr_effects rest,
          tr_state = tr_state rest\<rparr>)"
| "run F W (Cleanup # steps) wm = run F W steps (cleanup wm)"

fun calls :: "Step list \<Rightarrow> Call list" where
  "calls [] = []"
| "calls (Invoke env call # steps) = call # calls steps"
| "calls (Cleanup # steps) = calls steps"

text \<open>
  The rendering of one export task, as the specification words it: the task's page at the
  task's scale, as SVG text when the task's format is SVG and as a bitmap otherwise.
\<close>

definition renderingOf :: "Primitives \<Rightarrow> Buffer \<Rightarrow> RenderTask \<Rightarrow> string + Rendered" where
  "renderingOf P arrayBuffer task =
     (if task_format task = Some Format_svg
      then prim_svg P arrayBuffer (task_page task) (task_scale task)
      else prim_bitmap P arrayBuffer (task_page task) (task_scale task))"

text \<open>
  The field initialisers of the class; \<open>supportsOffscreenCanvas\<close> is what the platform
  offers when the module is loaded.
\<close>

definition newWorkerManager :: "bool \<Rightarrow> WorkerManager" where
  "newWorkerManager supportsOffscreenCanvas =
     \<lparr>wm_worker = False, wm_messageId = 0,
      wm_workerSupported = supportsOffscreenCanvas, wm_workerFailed = False\<rparr>"

subsection \<open>Sample primitives and tasks for concrete instances\<close>

text \<open>
  A document of five pages. Every bitmap carries the tag of the thread that drew it and
  its page, so that a result shows where and from which task it was rendered.
\<close>

definition samplePrimitives :: "nat \<Rightarrow> Primitives" where
  "samplePrimitives tag =
     \<lparr>prim_bitmap = (\<lambda>buffer page scale.
          if 0 \<le> page \<and> page < 5 then Inr (ImageBitmap [tag, nat page]) else Inl ''no such page''),
      prim_svg = (\<lambda>buffer page scale.
          if 0 \<le> page \<and> page < 5 then Inr (SvgText ''<svg/>'') else Inl ''no such page''),
      prim_numPages = (\<lambda>buffer. Inr 5)\<rparr>"

definition sampleTask :: "int \<Rightarrow> TaskFormat option \<Rightarrow> RenderTask" where
  "sampleTask page format =
     \<lparr>task_id = ''t'', task_type = Type_export, task_page = page, task_scale = 2,
      task_format = format, task_quality = None\<rparr>"

section \<open>Properties of the coordinate transform\<close>

text \<open>
  C10. For every canvas rectangle, also one with negative \<open>w\<close> or \<open>h\<close> as a drag in
  progress produces, \<open>normalizeRect\<close> returns non-negative \<open>w\<close> and \<open>h\<close>, and it is
  idempotent.
\<close>

theorem normalizeRect_nonneg_idem:
  "0 \<le> cv_w (normalizeRect r) \<and> 0 \<le> cv_h (normalizeRect r) \<and>
   normalizeRect (normalizeRect r) = normalizeRect r"
  by (simp add: normalizeRect_def)



text \<open>
  C8. \<open>calculateViewport\<close> chooses the scale
  \<open>min ((containerWidth - 2 * padding) / page.width) ((containerHeight - 2 * padding) / page.height) 2\<close>,
  which never exceeds 2; a page of 10 by 10 points in a container of 2000 by 2000 pixels
  with the default padding gets the scale 2 exactly. The page's width and height are
  taken non-zero: a quotient by zero is not a real number in JavaScript.
\<close>

theorem calculateViewport_scale:
  assumes "pg_width page \<noteq> 0" and "pg_height page \<noteq> 0"
  shows "vp_scale (calculateViewport page containerWidth containerHeight paddingArg) =
           min (min ((containerWidth - 2 * (case paddingArg of None \<Rightarrow> 20 | Some p \<Rightarrow> p)) / pg_width page)
                    ((containerHeight - 2 * (case paddingArg of None \<Rightarrow> 20 | Some p \<Rightarrow> p)) / pg_height page)) 2 \<and>
         vp_scale (calculateViewport page containerWidth containerHeight paddingArg) \<le> 2 \<and>
         (pg_width page = 10 \<and> pg_height page = 10 \<longrightarrow>
            vp_scale (calculateViewport page 2000 2000 None) = 2)"
  by (simp add: calculateViewport_def Let_def mult.commute)

theorem calculateViewport_scale_witness:
  "pg_width \<lparr>pg_index = 0, pg_width = 10, pg_height = 10, pg_rotation = Rot0, pg_cropBox = None,
       pg_mediaBox = \<lparr>pdf_x = 0, pdf_y = 0, pdf_width = 10, pdf_height = 10\<rparr>\<rparr> \<noteq> 0 \<and>
   vp_scale (calculateViewport
      \<lparr>pg_index = 0, pg_width = 10, pg_height = 10, pg_rotation = Rot0, pg_cropBox = None,
       pg_mediaBox = \<lparr>pdf_x = 0, pdf_y = 0, pdf_width = 10, pdf_height = 10\<rparr>\<rparr> 2000 2000 None) = 2"
  using calculateViewport_scale [of
      "\<lparr>pg_index = 0, pg_width = 10, pg_height = 10, pg_rotation = Rot0, pg_cropBox = None,
       pg_mediaBox = \<lparr>pdf_x = 0, pdf_y = 0, pdf_width = 10, pdf_height = 10\<rparr>\<rparr>" 2000 2000 None]
  by simp

section \<open>Properties of the crop editor\<close>







lemma CanvasViewer_handleMouseMove_dragRect_only:
  "\<exists>d. CanvasViewer_handleMouseMove e (vs, ps) = (vs\<lparr>cvs_dragRect := d\<rparr>, ps)"
proof (cases "CanvasViewer_handleMouseMove e (vs, ps) = (vs, ps)")
  case True
  then have "CanvasViewer_handleMouseMove e (vs, ps) = (vs\<lparr>cvs_dragRect := cvs_dragRect vs\<rparr>, ps)"
    by simp
  then show ?thesis by blast
next
  case False
  then show ?thesis
    by (auto simp: CanvasViewer_handleMouseMove_def Let_def split: if_splits option.splits prod.splits)
qed

lemma fold_handleMouseMove_dragRect_only:
  "\<exists>d. fold CanvasViewer_handleMouseMove moves (vs, ps) = (vs\<lparr>cvs_dragRect := d\<rparr>, ps)"
proof (induction moves arbitrary: vs)
  case Nil
  have "fold CanvasViewer_handleMouseMove [] (vs, ps) = (vs\<lparr>cvs_dragRect := cvs_dragRect vs\<rparr>, ps)"
    by simp
  then show ?case by blast
next
  case (Cons e moves)
  obtain d where d: "CanvasViewer_handleMouseMove e (vs, ps) = (vs\<lparr>cvs_dragRect := d\<rparr>, ps)"
    using CanvasViewer_handleMouseMove_dragRect_only by blast
  obtain d' where "fold CanvasViewer_handleMouseMove moves (vs\<lparr>cvs_dragRect := d\<rparr>, ps) =
      (vs\<lparr>cvs_dragRect := d\<rparr>\<lparr>cvs_dragRect := d'\<rparr>, ps)"
    using Cons.IH by blast
  then have "fold CanvasViewer_handleMouseMove (e # moves) (vs, ps) = (vs\<lparr>cvs_dragRect := d'\<rparr>, ps)"
    by (simp add: d)
  then show ?case by blast
qed

text \<open>
  C9. A crop-definition drag on the mounted canvas of the current page (button down,
  pointer moves, button up) whose normalised rectangle is narrower or lower than 10
  pixels commits no crop draft: the drag state is cleared and the store's \<open>cropDraft\<close>
  is unset at the end, whatever it was before.
\<close>

theorem cropDrag_small_discards:
  assumes canvas: "cvs_canvas vs = Some c"
    and viewport: "cvs_viewport vs = Some v"
    and page: "currentPageMeta ps = Some pg"
    and rect: "cvs_dragRect (fst (fold CanvasViewer_handleMouseMove moves
                 (CanvasViewer_handleMouseDown down (vs, ps)))) = Some r"
    and small: "cv_w (normalizeRect r) < 10 \<or> cv_h (normalizeRect r) < 10"
  shows "cropDrag down moves (vs, ps) =
           (vs\<lparr>cvs_isDragging := False, cvs_dragStart := None, cvs_dragRect := None\<rparr>,
            ps\<lparr>ps_cropDraft := None\<rparr>)"
proof -
  obtain cl ct where c: "c = (cl, ct)" by (cases c)
  define vs1 where "vs1 = vs\<lparr>cvs_isDragging := True,
      cvs_dragStart := Some (fst down - cl, snd down - ct),
      cvs_dragRect := Some \<lparr>cv_x = fst down - cl, cv_y = snd down - ct, cv_w = 0, cv_h = 0\<rparr>\<rparr>"
  define ps1 where "ps1 = ps\<lparr>ps_cropDraft := None\<rparr>"
  have down: "CanvasViewer_handleMouseDown down (vs, ps) = (vs1, ps1)"
    using canvas viewport
    by (simp add: CanvasViewer_handleMouseDown_def c Let_def vs1_def ps1_def clearCropDraft_def)
  obtain d where d: "fold CanvasViewer_handleMouseMove moves (vs1, ps1) = (vs1\<lparr>cvs_dragRect := d\<rparr>, ps1)"
    using fold_handleMouseMove_dragRect_only by blast
  have dr: "d = Some r" using rect by (simp add: down d)
  have pg1: "currentPageMeta ps1 = Some pg"
    using page by (auto simp: currentPageMeta_def ps1_def split: option.splits if_splits)
  then obtain i where i: "ps_currentPage ps1 = Some i"
    by (auto simp: currentPageMeta_def split: option.splits)
  have up: "CanvasViewer_handleMouseUp (vs1\<lparr>cvs_dragRect := Some r\<rparr>, ps1) =
          (vs1\<lparr>cvs_dragRect := Some r\<rparr>\<lparr>cvs_isDragging := False, cvs_dragStart := None, cvs_dragRect := None\<rparr>, ps1)"
    using small viewport pg1 i
    by (simp add: CanvasViewer_handleMouseUp_def vs1_def Let_def)
  have "cropDrag down moves (vs, ps) = CanvasViewer_handleMouseUp (vs1\<lparr>cvs_dragRect := Some r\<rparr>, ps1)"
    by (simp add: cropDrag_def down d dr)
  also note up
  also have "(vs1\<lparr>cvs_dragRect := Some r\<rparr>\<lparr>cvs_isDragging := False, cvs_dragStart := None, cvs_dragRect := None\<rparr>, ps1) =
      (vs\<lparr>cvs_isDragging := False, cvs_dragStart := None, cvs_dragRect := None\<rparr>,
            ps\<lparr>ps_cropDraft := None\<rparr>)"
    by (simp add: vs1_def ps1_def)
  finally show ?thesis .
qed

theorem cropDrag_small_discards_witness:
  "cropDrag (100, 100) [(103, 110), (105, 120)]
     (\<lparr>cvs_viewport = Some \<lparr>vp_width = 600, vp_height = 800, vp_scale = 1, vp_offsetX = 0, vp_offsetY = 0\<rparr>,
       cvs_isDragging = False, cvs_dragStart = None, cvs_dragRect = None, cvs_canvas = Some (0, 0)\<rparr>,
      \<lparr>ps_pages = [\<lparr>pg_index = 0, pg_width = 600, pg_height = 800, pg_rotation = Rot0,
                    pg_cropBox = None,
                    pg_mediaBox = \<lparr>pdf_x = 0, pdf_y = 0, pdf_width = 600, pdf_height = 800\<rparr>\<rparr>],
       ps_currentPage = Some 0,
       ps_cropDraft = Some \<lparr>cd_page = 0, cd_rect = \<lparr>pdf_x = 1, pdf_y = 2, pdf_width = 30, pdf_height = 40\<rparr>\<rparr>\<rparr>)
   = (\<lparr>cvs_viewport = Some \<lparr>vp_width = 600, vp_height = 800, vp_scale = 1, vp_offsetX = 0, vp_offsetY = 0\<rparr>,
       cvs_isDragging = False, cvs_dragStart = None, cvs_dragRect = None, cvs_canvas = Some (0, 0)\<rparr>,
      \<lparr>ps_pages = [\<lparr>pg_index = 0, pg_width = 600, pg_height = 800, pg_rotation = Rot0,
                    pg_cropBox = None,
                    pg_mediaBox = \<lparr>pdf_x = 0, pdf_y = 0, pdf_width = 600, pdf_height = 800\<rparr>\<rparr>],
       ps_currentPage = Some 0,
       ps_cropDraft = None\<rparr>)"
  using cropDrag_small_discards [where down = "(100, 100)" and moves = "[(103, 110), (105, 120)]"
      and r = "\<lparr>cv_x = 100, cv_y = 100, cv_w = 5, cv_h = 20\<rparr>"
      and c = "(0, 0)"
      and v = "\<lparr>vp_width = 600, vp_height = 800, vp_scale = 1, vp_offsetX = 0, vp_offsetY = 0\<rparr>"
      and pg = "\<lparr>pg_index = 0, pg_width = 600, pg_height = 800, pg_rotation = Rot0,
                    pg_cropBox = None,
                    pg_mediaBox = \<lparr>pdf_x = 0, pdf_y = 0, pdf_width = 600, pdf_height = 800\<rparr>\<rparr>"
      and vs = "\<lparr>cvs_viewport = Some \<lparr>vp_width = 600, vp_height = 800, vp_scale = 1, vp_offsetX = 0, vp_offsetY = 0\<rparr>,
       cvs_isDragging = False, cvs_dragStart = None, cvs_dragRect = None, cvs_canvas = Some (0, 0)\<rparr>"
      and ps = "\<lparr>ps_pages = [\<lparr>pg_index = 0, pg_width = 600, pg_height = 800, pg_rotation = Rot0,
                    pg_cropBox = None,
                    pg_mediaBox = \<lparr>pdf_x = 0, pdf_y = 0, pdf_width = 600, pdf_height = 800\<rparr>\<rparr>],
       ps_currentPage = Some 0,
       ps_cropDraft = Some \<lparr>cd_page = 0, cd_rect = \<lparr>pdf_x = 1, pdf_y = 2, pdf_width = 30, pdf_height = 40\<rparr>\<rparr>\<rparr>"]
  by (simp add: currentPageMeta_def CanvasViewer_handleMouseDown_def CanvasViewer_handleMouseMove_def
      clearCropDraft_def normalizeRect_def Let_def)

section \<open>Properties of the range expression engine\<close>

subsection \<open>The set of pages and its order\<close>

lemma set_setAdd: "set (setAdd i result) = insert i (set result)"
  by (auto simp: setAdd_def)

lemma distinct_setAdd: "distinct result \<Longrightarrow> distinct (setAdd i result)"
  by (simp add: setAdd_def)

lemma set_addRange: "set (addRange i hi result) = set result \<union> {i..hi}"
proof (induction i hi result rule: addRange.induct)
  case (1 i hi result)
  show ?case
  proof (cases "i \<le> hi")
    case True
    then have "set (addRange i hi result) = set (setAdd i result) \<union> {i + 1..hi}"
      using "1.IH" by (simp add: addRange.simps [of i])
    also have "\<dots> = set result \<union> {i..hi}"
      using True by (auto simp: set_setAdd)
    finally show ?thesis .
  next
    case False
    then show ?thesis by (simp add: addRange.simps [of i])
  qed
qed

lemma distinct_addRange: "distinct result \<Longrightarrow> distinct (addRange i hi result)"
proof (induction i hi result rule: addRange.induct)
  case (1 i hi result)
  then show ?case
    by (cases "i \<le> hi") (simp_all add: addRange.simps [of i] distinct_setAdd)
qed


lemma distinct_processPart: "distinct result \<Longrightarrow> distinct (processPart maxPage part result)"
  by (auto simp: processPart_def Let_def distinct_addRange distinct_setAdd split: option.splits)


lemma distinct_parseParts: "distinct result \<Longrightarrow> distinct (parseParts maxPage parts result)"
  by (induction parts arbitrary: result) (simp_all add: distinct_processPart)


lemma parseParts_append:
  "parseParts maxPage (xs @ ys) result = parseParts maxPage ys (parseParts maxPage xs result)"
  by (induction xs arbitrary: result) simp_all

subsection \<open>Splitting and trimming\<close>

lemma js_trim_no_space: "\<forall>c\<in>set s. \<not> isWhiteSpace c \<Longrightarrow> js_trim s = s"
proof -
  assume a: "\<forall>c\<in>set s. \<not> isWhiteSpace c"
  have "dropWhile isWhiteSpace s = s"
    using a by (cases s) auto
  moreover have "dropWhile isWhiteSpace (rev s) = rev s"
    using a by (cases "rev s") (auto simp: rev_eq_Cons_iff)
  ultimately show ?thesis by (simp add: js_trim_def)
qed



lemma js_split_nonempty: "js_split sep s \<noteq> []"
  by (induction s) (auto split: list.splits)

lemma js_split_no_sep: "sep \<notin> set s \<Longrightarrow> js_split sep s = [s]"
  by (induction s) auto

lemma js_split_append: "js_split sep (a @ sep # b) = js_split sep a @ js_split sep b"
proof (induction a)
  case Nil
  then show ?case by simp
next
  case (Cons c a)
  then show ?case
    using js_split_nonempty [of sep a]
    by (cases "js_split sep a") (auto split: list.splits)
qed

lemma js_split_join:
  "strs \<noteq> [] \<Longrightarrow> js_split CHR '','' (js_join '','' strs) = concat (map (js_split CHR '','') strs)"
proof (induction "'',''" strs rule: js_join.induct)
  case 1
  then show ?case by simp
next
  case (2 s)
  then show ?case by simp
next
  case (3 s t ss)
  have "js_split CHR '','' (js_join '','' (s # t # ss)) =
          js_split CHR '','' (s @ CHR '','' # js_join '','' (t # ss))"
    by simp
  also have "\<dots> = js_split CHR '','' s @ js_split CHR '','' (js_join '','' (t # ss))"
    by (rule js_split_append)
  finally show ?case using 3 by simp
qed

lemma js_join_clean:
  assumes "\<forall>c\<in>set sep. \<not> isWhiteSpace c" and "strs \<noteq> []"
    and "\<forall>s\<in>set strs. s \<noteq> [] \<and> (\<forall>c\<in>set s. \<not> isWhiteSpace c)"
  shows "js_join sep strs \<noteq> [] \<and> (\<forall>c\<in>set (js_join sep strs). \<not> isWhiteSpace c)"
  using assms
proof (induction sep strs rule: js_join.induct)
  case (1 sep)
  then show ?case by simp
next
  case (2 sep s)
  then show ?case by simp
next
  case (3 sep s t ss)
  have "\<forall>u\<in>set (t # ss). u \<noteq> [] \<and> (\<forall>c\<in>set u. \<not> isWhiteSpace c)"
    using "3.prems"(3) by simp
  then have IH: "\<forall>c\<in>set (js_join sep (t # ss)). \<not> isWhiteSpace c"
    using "3.IH" "3.prems"(1) by blast
  have s: "s \<noteq> []" "\<forall>c\<in>set s. \<not> isWhiteSpace c"
    using "3.prems"(3) by simp_all
  have "js_join sep (s # t # ss) = s @ sep @ js_join sep (t # ss)"
    by simp
  then show ?case
    using s IH "3.prems"(1) by (simp add: ball_Un)
qed

subsection \<open>Terms that cannot be parsed\<close>





subsection \<open>Decimal digits\<close>

lemma isDigit_char_of: "k < 10 \<Longrightarrow> isDigit (char_of (48 + k :: nat))"
  by (simp add: isDigit_def)

lemma digitValue_char_of: "k < 10 \<Longrightarrow> digitValue (char_of (48 + k :: nat)) = int k"
  by (simp add: digitValue_def)

lemma isDigit_not_special:
  assumes "isDigit c"
  shows "\<not> isWhiteSpace c" and "c \<noteq> CHR '',''" and "c \<noteq> CHR ''-''" and "c \<noteq> CHR ''+''"
  using assms by (auto simp: isDigit_def isWhiteSpace_def)

lemma digitsOfNat_nonempty: "digitsOfNat n \<noteq> []"
  by (subst digitsOfNat.simps) simp

lemma digitsOfNat_digits: "c \<in> set (digitsOfNat n) \<Longrightarrow> isDigit c"
proof (induction n arbitrary: c rule: digitsOfNat.induct)
  case (1 n)
  show ?case
  proof (cases "n < 10")
    case True
    with "1.prems" show ?thesis
      by (subst (asm) digitsOfNat.simps) (simp add: isDigit_char_of)
  next
    case False
    with "1.prems" have "c \<in> set (digitsOfNat (n div 10)) \<or> c = char_of (48 + n mod 10)"
      by (subst (asm) digitsOfNat.simps) auto
    then show ?thesis
      using "1.IH" [OF False] by (auto simp: isDigit_char_of)
  qed
qed

lemma digitsValue_snoc: "digitsValue (ds @ [c]) = 10 * digitsValue ds + digitValue c"
  by (simp add: digitsValue_def)

lemma digitsValue_digitsOfNat: "digitsValue (digitsOfNat n) = int n"
proof (induction n rule: digitsOfNat.induct)
  case (1 n)
  show ?case
  proof (cases "n < 10")
    case True
    then show ?thesis
      by (subst digitsOfNat.simps) (simp add: digitsValue_def digitValue_char_of)
  next
    case False
    have "digitsValue (digitsOfNat n) = 10 * digitsValue (digitsOfNat (n div 10)) + int (n mod 10)"
      using False by (subst digitsOfNat.simps) (simp add: digitsValue_snoc digitValue_char_of)
    also have "\<dots> = 10 * int (n div 10) + int (n mod 10)"
      using "1.IH" [OF False] by simp
    also have "\<dots> = int n"
      by (simp add: zdiv_int zmod_int)
    finally show ?thesis .
  qed
qed

lemma js_toString_nonneg: "0 \<le> n \<Longrightarrow> js_toString n = digitsOfNat (nat n)"
  by (simp add: js_toString_def)

lemma js_toString_digits: "0 \<le> n \<Longrightarrow> c \<in> set (js_toString n) \<Longrightarrow> isDigit c"
  by (simp add: js_toString_nonneg digitsOfNat_digits)

lemma js_toString_nonempty: "js_toString n \<noteq> []"
  by (simp add: js_toString_def digitsOfNat_nonempty)

lemma js_toString_clean:
  assumes "0 \<le> n"
  shows "CHR '','' \<notin> set (js_toString n)" and "CHR ''-'' \<notin> set (js_toString n)"
    and "\<forall>c\<in>set (js_toString n). \<not> isWhiteSpace c"
  using js_toString_digits [OF assms] isDigit_not_special by blast+

lemma parseInt_digits:
  assumes "ds \<noteq> []" and "\<forall>c\<in>set ds. isDigit c"
  shows "parseInt ds = Some (digitsValue ds)"
proof -
  from assms obtain d rest where ds: "ds = d # rest" by (cases ds) auto
  with assms have d: "isDigit d" by simp
  have ws: "dropWhile isWhiteSpace ds = ds"
    using isDigit_not_special(1) [OF d] by (simp add: ds)
  have tk: "takeWhile isDigit ds = ds"
    using assms(2) by (simp add: takeWhile_eq_all_conv)
  have sign: "hd ds \<noteq> CHR ''-''" "hd ds \<noteq> CHR ''+''"
    using isDigit_not_special [OF d] by (simp_all add: ds)
  show ?thesis
    using assms(1) sign by (simp add: parseInt_def Let_def ws tk)
qed

lemma parseInt_js_toString: "0 \<le> n \<Longrightarrow> parseInt (js_toString n) = Some n"
  using parseInt_digits [of "js_toString n"]
  by (simp add: js_toString_nonempty js_toString_digits) (simp add: js_toString_nonneg digitsValue_digitsOfNat)

subsection \<open>Formatting, then parsing\<close>

lemma processPart_single:
  assumes "1 \<le> a" and "a \<le> maxPage"
  shows "processPart maxPage (js_toString a) result = setAdd a result"
proof -
  have "0 \<le> a" using assms by simp
  then show ?thesis
    using assms by (simp add: processPart_def js_toString_clean parseInt_js_toString)
qed

lemma processPart_range:
  assumes "0 \<le> a" and "0 \<le> b"
  shows "processPart maxPage (js_toString a @ CHR ''-'' # js_toString b) result =
           addRange (max 1 a) (min maxPage b) result"
proof -
  have sp: "js_split CHR ''-'' (js_toString a @ CHR ''-'' # js_toString b) = [js_toString a, js_toString b]"
    using js_split_append [of "CHR ''-''" "js_toString a" "js_toString b"]
    by (simp add: js_split_no_sep js_toString_clean assms)
  have tr: "js_trim (js_toString a) = js_toString a" "js_trim (js_toString b) = js_toString b"
    using assms by (simp_all add: js_trim_no_space js_toString_clean)
  show ?thesis
    using assms
    by (simp add: processPart_def sp tr Let_def js_toString_nonempty parseInt_js_toString)
qed

lemma rangeText_parts:
  assumes "1 \<le> a" and "a \<le> b" and "b \<le> maxPage"
  shows "set (parseParts maxPage
            (filter (\<lambda>s. s \<noteq> []) (map js_trim (js_split CHR '','' (rangeText a b)))) result)
         = set result \<union> {a..b}"
proof -
  have nn: "0 \<le> a" "0 \<le> b" using assms by simp_all
  have ab: "1 \<le> b" "a \<le> maxPage" using assms by simp_all
  have tr: "js_trim (js_toString a) = js_toString a" "js_trim (js_toString b) = js_toString b"
    using nn by (simp_all add: js_trim_no_space js_toString_clean)
  consider (one) "a = b" | (two) "b = a + 1" | (many) "a \<noteq> b" "b \<noteq> a + 1" by blast
  then show ?thesis
  proof cases
    case one
    have sp: "js_split CHR '','' (rangeText a b) = [js_toString a]"
      using one nn(1) by (simp add: rangeText_def js_split_no_sep js_toString_clean)
    have "set (parseParts maxPage
            (filter (\<lambda>s. s \<noteq> []) (map js_trim (js_split CHR '','' (rangeText a b)))) result)
          = set (setAdd a result)"
      using assms(1) ab(2)
      by (simp add: sp tr js_toString_nonempty processPart_single)
    also have "\<dots> = set result \<union> {a..b}"
      using one by (simp add: set_setAdd)
    finally show ?thesis .
  next
    case two
    have "rangeText a b = js_toString a @ CHR '','' # js_toString b"
      using two by (simp add: rangeText_def)
    then have sp: "js_split CHR '','' (rangeText a b) = [js_toString a, js_toString b]"
      using nn js_split_append [of "CHR '',''" "js_toString a" "js_toString b"]
      by (simp add: js_split_no_sep js_toString_clean)
    have "set (parseParts maxPage
            (filter (\<lambda>s. s \<noteq> []) (map js_trim (js_split CHR '','' (rangeText a b)))) result)
          = set (setAdd b (setAdd a result))"
      using assms(1,3) ab
      by (simp add: sp tr js_toString_nonempty processPart_single)
    also have "\<dots> = set result \<union> {a, b}"
      by (auto simp: set_setAdd)
    also have "{a, b} = {a..b}"
      using two by auto
    finally show ?thesis .
  next
    case many
    have rt: "rangeText a b = js_toString a @ CHR ''-'' # js_toString b"
      using many by (simp add: rangeText_def)
    have noc: "CHR '','' \<notin> set (js_toString a @ CHR ''-'' # js_toString b)"
      using nn by (simp add: js_toString_clean)
    have nows: "\<forall>c\<in>set (js_toString a @ CHR ''-'' # js_toString b). \<not> isWhiteSpace c"
      using nn js_toString_clean(3) by (auto simp: isWhiteSpace_def)
    have sp: "js_split CHR '','' (rangeText a b) = [js_toString a @ CHR ''-'' # js_toString b]"
      unfolding rt by (rule js_split_no_sep [OF noc])
    have "set (parseParts maxPage
            (filter (\<lambda>s. s \<noteq> []) (map js_trim (js_split CHR '','' (rangeText a b)))) result)
          = set (addRange (max 1 a) (min maxPage b) result)"
      using nn by (simp add: sp js_trim_no_space [OF nows] processPart_range)
    also have "\<dots> = set result \<union> {a..b}"
      using assms by (simp add: set_addRange max_absorb2 min_absorb2)
    finally show ?thesis .
  qed
qed

lemma formatLoop_parts:
  assumes "1 \<le> start" and "start \<le> end'" and "end' \<le> maxPage"
    and "sorted_wrt (<) (end' # rest)" and "\<forall>p\<in>set rest. p \<le> maxPage"
  shows "set (parseParts maxPage
            (filter (\<lambda>s. s \<noteq> [])
               (map js_trim (concat (map (js_split CHR '','') (formatLoop rest start end' ranges))))) result)
         = set (parseParts maxPage
            (filter (\<lambda>s. s \<noteq> []) (map js_trim (concat (map (js_split CHR '','') ranges)))) result)
           \<union> {start..end'} \<union> set rest"
  using assms
proof (induction rest arbitrary: start end' ranges)
  case Nil
  then show ?case
    by (simp add: parseParts_append rangeText_parts)
next
  case (Cons p rest)
  have p: "end' < p" "p \<le> maxPage" "sorted_wrt (<) (p # rest)" "\<forall>q\<in>set rest. q \<le> maxPage"
    using Cons.prems by auto
  show ?case
  proof (cases "p = end' + 1")
    case True
    have "{start..p} = {start..end'} \<union> {p}"
      using True Cons.prems(2) by auto
    then show ?thesis
      using True Cons.IH [of start p ranges] Cons.prems p by auto
  next
    case False
    have "1 \<le> p" using Cons.prems p by linarith
    then show ?thesis
      using False Cons.IH [of p p "ranges @ [rangeText start end']"] Cons.prems p
      by (auto simp: parseParts_append rangeText_parts)
  qed
qed

lemma no_space_rangeText:
  assumes "0 \<le> a" and "0 \<le> b"
  shows "rangeText a b \<noteq> []" and "\<forall>c\<in>set (rangeText a b). \<not> isWhiteSpace c"
proof -
  show "rangeText a b \<noteq> []"
    by (simp add: rangeText_def js_toString_nonempty)
  have "\<not> isWhiteSpace CHR '',''" "\<not> isWhiteSpace CHR ''-''"
    by (simp_all add: isWhiteSpace_def)
  then show "\<forall>c\<in>set (rangeText a b). \<not> isWhiteSpace c"
    using assms js_toString_clean(3) by (auto simp: rangeText_def)
qed

lemma formatLoop_nonempty: "formatLoop rest start end' ranges \<noteq> []"
  by (induction rest arbitrary: start end' ranges) simp_all

lemma formatLoop_clean:
  assumes "\<forall>s\<in>set ranges. s \<noteq> [] \<and> (\<forall>c\<in>set s. \<not> isWhiteSpace c)"
    and "0 \<le> start" and "0 \<le> end'" and "\<forall>p\<in>set rest. 0 \<le> p"
  shows "\<forall>s\<in>set (formatLoop rest start end' ranges). s \<noteq> [] \<and> (\<forall>c\<in>set s. \<not> isWhiteSpace c)"
  using assms
proof (induction rest arbitrary: start end' ranges)
  case Nil
  have "rangeText start end' \<noteq> [] \<and> (\<forall>c\<in>set (rangeText start end'). \<not> isWhiteSpace c)"
    using no_space_rangeText [OF Nil.prems(2,3)] by blast
  then have "\<forall>s\<in>set (ranges @ [rangeText start end']). s \<noteq> [] \<and> (\<forall>c\<in>set s. \<not> isWhiteSpace c)"
    using Nil.prems(1) by (simp add: ball_Un)
  then show ?case by simp
next
  case (Cons p rest)
  have p: "0 \<le> p" "\<forall>q\<in>set rest. 0 \<le> q"
    using Cons.prems(4) by simp_all
  show ?case
  proof (cases "p = end' + 1")
    case True
    have "\<forall>s\<in>set (formatLoop rest start p ranges). s \<noteq> [] \<and> (\<forall>c\<in>set s. \<not> isWhiteSpace c)"
      by (rule Cons.IH [OF Cons.prems(1) Cons.prems(2) p])
    then show ?thesis using True by simp
  next
    case False
    have "rangeText start end' \<noteq> [] \<and> (\<forall>c\<in>set (rangeText start end'). \<not> isWhiteSpace c)"
      using no_space_rangeText [OF Cons.prems(2,3)] by blast
    then have "\<forall>s\<in>set (ranges @ [rangeText start end']). s \<noteq> [] \<and> (\<forall>c\<in>set s. \<not> isWhiteSpace c)"
      using Cons.prems(1) by (simp add: ball_Un)
    then have "\<forall>s\<in>set (formatLoop rest p p (ranges @ [rangeText start end'])).
        s \<noteq> [] \<and> (\<forall>c\<in>set s. \<not> isWhiteSpace c)"
      by (rule Cons.IH [OF _ p(1) p(1) p(2)])
    then show ?thesis using False by simp
  qed
qed

text \<open>
  C4. For every strictly ascending list \<open>L\<close> of positive integers none of which exceeds
  \<open>maxPage\<close>, parsing the formatted list gives the list back.
\<close>

theorem parse_format_roundtrip:
  assumes "sorted_wrt (<) L" and "\<forall>p\<in>set L. 1 \<le> p \<and> p \<le> maxPage"
  shows "parsePageExpr (formatPageRange L) maxPage = L"
proof (cases L)
  case Nil
  then show ?thesis
    by (simp add: formatPageRange_def parsePageExpr_def js_trim_def)
next
  case (Cons first rest)
  have sd: "sorted L" "distinct L"
    using assms(1) by (simp_all add: strict_sorted_iff)
  then have srt: "sort L = L"
    by (simp add: sort_key_id_if_sorted)
  define outs where "outs = formatLoop rest first first []"
  define expr where "expr = js_join '','' outs"
  have fmt: "formatPageRange L = expr"
    by (simp add: formatPageRange_def srt Let_def expr_def outs_def) (simp add: Cons)
  have bounds: "1 \<le> first" "first \<le> maxPage" "\<forall>p\<in>set rest. p \<le> maxPage" "\<forall>p\<in>set rest. 0 \<le> p"
    using assms(2) by (auto simp: Cons)
  have outs_ne: "outs \<noteq> []"
    by (simp add: outs_def formatLoop_nonempty)
  have first0: "0 \<le> first" using bounds(1) by simp
  have outs_clean: "\<forall>s\<in>set outs. s \<noteq> [] \<and> (\<forall>c\<in>set s. \<not> isWhiteSpace c)"
    unfolding outs_def by (rule formatLoop_clean [OF _ first0 first0 bounds(4)]) simp
  have comma: "\<forall>c\<in>set '',''. \<not> isWhiteSpace c"
    by (simp add: isWhiteSpace_def)
  have expr_clean: "expr \<noteq> []" "\<forall>c\<in>set expr. \<not> isWhiteSpace c"
    using js_join_clean [OF comma outs_ne outs_clean] by (simp_all add: expr_def)
  have trim: "js_trim expr = expr"
    by (rule js_trim_no_space [OF expr_clean(2)])
  define result where "result = parseParts maxPage
      (filter (\<lambda>s. s \<noteq> []) (map js_trim (concat (map (js_split CHR '','') outs)))) []"
  have parsed: "parsePageExpr expr maxPage = sort result"
    using expr_clean(1)
    by (simp add: parsePageExpr_def trim Let_def result_def) (simp add: expr_def js_split_join [OF outs_ne])
  have "set result = set (parseParts maxPage
            (filter (\<lambda>s. s \<noteq> []) (map js_trim (concat (map (js_split CHR '','') [])))) [])
           \<union> {first..first} \<union> set rest"
    unfolding result_def outs_def
    using bounds assms(1) by (intro formatLoop_parts) (simp_all add: Cons)
  then have set_eq: "set result = set L"
    by (simp add: Cons)
  have "distinct result"
    by (simp add: result_def distinct_parseParts)
  then have "sort result = L"
    using set_eq sd by (intro sorted_distinct_set_unique) simp_all
  then show ?thesis
    by (simp add: fmt parsed)
qed

theorem parse_format_roundtrip_witness:
  "sorted_wrt (<) [1, 2, 3, 5, 7, 8, 12 :: int] \<and>
   parsePageExpr (formatPageRange [1, 2, 3, 5, 7, 8, 12]) 12 = [1, 2, 3, 5, 7, 8, 12]"
proof -
  have s: "sorted_wrt (<) [1, 2, 3, 5, 7, 8, 12 :: int]"
    by simp
  have b: "\<forall>p\<in>set [1, 2, 3, 5, 7, 8, 12 :: int]. 1 \<le> p \<and> p \<le> 12"
    by simp
  show ?thesis
    using s parse_format_roundtrip [OF s b] by (rule conjI)
qed

section \<open>Properties of the task coordinator\<close>

lemma perform_degraded:
  assumes "\<not> wm_workerSupported wm \<or> wm_workerFailed wm"
  shows "perform F W env call wm =
           \<lparr>out_value = foreground F call, out_effects = [], out_state = wm\<rparr>"
  using assms
  by (cases call) (auto simp: renderPage_def exportPages_def loadDocument_def Let_def)

lemma perform_backgroundFails:
  assumes "backgroundFails W env call wm"
  shows "out_value (perform F W env call wm) = foreground F call"
    and "\<not> wm_workerSupported (out_state (perform F W env call wm)) \<or>
         wm_workerFailed (out_state (perform F W env call wm))"
proof -
  show "out_value (perform F W env call wm) = foreground F call"
  proof (cases "\<not> wm_workerSupported wm \<or> wm_workerFailed wm")
    case True
    then show ?thesis by (simp add: perform_degraded)
  next
    case False
    with assms show ?thesis
      by (cases call)
         (auto simp: backgroundFails_def renderPage_def exportPages_def loadDocument_def Let_def
               split: sum.splits if_splits)
  qed
  show "\<not> wm_workerSupported (out_state (perform F W env call wm)) \<or>
         wm_workerFailed (out_state (perform F W env call wm))"
  proof (cases "\<not> wm_workerSupported wm \<or> wm_workerFailed wm")
    case True
    then show ?thesis by (simp add: perform_degraded)
  next
    case False
    with assms show ?thesis
      by (cases call)
         (auto simp: backgroundFails_def renderPage_def exportPages_def loadDocument_def Let_def
               split: sum.splits if_splits)
  qed
qed

lemma run_degraded:
  assumes "\<not> wm_workerSupported wm \<or> wm_workerFailed wm"
  shows "tr_values (run F W steps wm) = map (foreground F) (calls steps) \<and>
         tr_effects (run F W steps wm) = [] \<and>
         (\<not> wm_workerSupported (tr_state (run F W steps wm)) \<or>
          wm_workerFailed (tr_state (run F W steps wm)))"
  using assms
proof (induction steps arbitrary: wm)
  case Nil
  then show ?case by simp
next
  case (Cons step steps)
  show ?case
  proof (cases step)
    case (Invoke env call)
    then show ?thesis
      using Cons.IH [OF Cons.prems] Cons.prems
      by (simp add: perform_degraded Let_def)
  next
    case Cleanup
    have "\<not> wm_workerSupported (cleanup wm) \<or> wm_workerFailed (cleanup wm)"
      using Cons.prems by (simp add: cleanup_def)
    then show ?thesis
      using Cons.IH [of "cleanup wm"] Cleanup by simp
  qed
qed

text \<open>
  C2. When the background path of a call fails (no platform support, the worker cannot
  be created, the dispatch throws, the request times out, the worker crashes or answers
  with an error), the call returns what the calling thread computes for it, and every
  later \<open>renderPage\<close>, \<open>exportPages\<close> or \<open>loadDocument\<close> on the same coordinator, with
  \<open>cleanup\<close> calls anywhere between them, returns what the calling thread computes and
  neither creates a worker nor posts a message.
\<close>

theorem worker_failure_is_sticky:
  assumes "backgroundFails W env call wm"
  shows "out_value (perform F W env call wm) = foreground F call \<and>
         tr_values (run F W steps (out_state (perform F W env call wm)))
           = map (foreground F) (calls steps) \<and>
         tr_effects (run F W steps (out_state (perform F W env call wm))) = []"
  using perform_backgroundFails [OF assms, of F]
    run_degraded [of "out_state (perform F W env call wm)" F W steps]
  by blast

theorem worker_failure_is_sticky_witness:
  "backgroundFails (samplePrimitives 1)
     \<lparr>env_newWorkerThrows = None, env_delivery = NoResponse\<rparr>
     (RenderPage [37, 80, 68, 70] 0 1 None) (newWorkerManager True) \<and>
   out_value (perform (samplePrimitives 0) (samplePrimitives 1)
     \<lparr>env_newWorkerThrows = None, env_delivery = NoResponse\<rparr>
     (RenderPage [37, 80, 68, 70] 0 1 None) (newWorkerManager True)) = Inr (OnePage (ImageBitmap [0, 0])) \<and>
   tr_values (run (samplePrimitives 0) (samplePrimitives 1)
     [Invoke \<lparr>env_newWorkerThrows = None, env_delivery = Responds\<rparr> (LoadDocument [37, 80, 68, 70]),
      Cleanup,
      Invoke \<lparr>env_newWorkerThrows = None, env_delivery = Responds\<rparr>
        (ExportPages [37, 80, 68, 70] [sampleTask 3 (Some Format_png), sampleTask 1 None])]
     (out_state (perform (samplePrimitives 0) (samplePrimitives 1)
        \<lparr>env_newWorkerThrows = None, env_delivery = NoResponse\<rparr>
        (RenderPage [37, 80, 68, 70] 0 1 None) (newWorkerManager True))))
     = [Inr (DocumentInfo 5 True), Inr (Pages [ImageBitmap [0, 3], ImageBitmap [0, 1]])] \<and>
   tr_effects (run (samplePrimitives 0) (samplePrimitives 1)
     [Invoke \<lparr>env_newWorkerThrows = None, env_delivery = Responds\<rparr> (LoadDocument [37, 80, 68, 70]),
      Cleanup,
      Invoke \<lparr>env_newWorkerThrows = None, env_delivery = Responds\<rparr>
        (ExportPages [37, 80, 68, 70] [sampleTask 3 (Some Format_png), sampleTask 1 None])]
     (out_state (perform (samplePrimitives 0) (samplePrimitives 1)
        \<lparr>env_newWorkerThrows = None, env_delivery = NoResponse\<rparr>
        (RenderPage [37, 80, 68, 70] 0 1 None) (newWorkerManager True)))) = []"
proof -
  have fails: "backgroundFails (samplePrimitives 1)
     \<lparr>env_newWorkerThrows = None, env_delivery = NoResponse\<rparr>
     (RenderPage [37, 80, 68, 70] 0 1 None) (newWorkerManager True)"
    by (simp add: backgroundFails_def sendMessage_def newWorkerManager_def Let_def)
  have fg: "foreground (samplePrimitives 0) (RenderPage [37, 80, 68, 70] 0 1 None)
              = Inr (OnePage (ImageBitmap [0, 0]))"
    "map (foreground (samplePrimitives 0))
       (calls [Invoke \<lparr>env_newWorkerThrows = None, env_delivery = Responds\<rparr> (LoadDocument [37, 80, 68, 70]),
          Cleanup,
          Invoke \<lparr>env_newWorkerThrows = None, env_delivery = Responds\<rparr>
            (ExportPages [37, 80, 68, 70] [sampleTask 3 (Some Format_png), sampleTask 1 None])])
     = [Inr (DocumentInfo 5 True), Inr (Pages [ImageBitmap [0, 3], ImageBitmap [0, 1]])]"
    by (simp_all add: renderPage_foreground_def renderPageLocally_def samplePrimitives_def
        cloneForPdf_def loadDocumentLocally_def exportPages_foreground_def exportPagesLocally_def
        sampleTask_def)
  show ?thesis
    using fails
      worker_failure_is_sticky [OF fails, of "samplePrimitives 0"
        "[Invoke \<lparr>env_newWorkerThrows = None, env_delivery = Responds\<rparr> (LoadDocument [37, 80, 68, 70]),
          Cleanup,
          Invoke \<lparr>env_newWorkerThrows = None, env_delivery = Responds\<rparr>
            (ExportPages [37, 80, 68, 70] [sampleTask 3 (Some Format_png), sampleTask 1 None])]"]
    unfolding fg by blast
qed

text \<open>
  C5. An \<open>exportPages\<close> call with at least one task of format SVG runs the whole batch
  on the calling thread: it returns the result of the local export, creates no worker,
  posts no message and leaves the coordinator's state as it was, whether or not the
  worker is supported and healthy.
\<close>

theorem svg_batch_runs_in_foreground:
  assumes "\<exists>task\<in>set tasks. task_format task = Some Format_svg"
  shows "exportPages F W env arrayBuffer tasks wm =
           \<lparr>out_value = exportPages_foreground F arrayBuffer tasks,
            out_effects = [], out_state = wm\<rparr>"
  using assms by (simp add: exportPages_def list_ex_iff)

theorem svg_batch_runs_in_foreground_witness:
  "exportPages (samplePrimitives 0) (samplePrimitives 1)
     \<lparr>env_newWorkerThrows = None, env_delivery = Responds\<rparr> [37, 80, 68, 70]
     [sampleTask 3 (Some Format_png), sampleTask 1 (Some Format_svg), sampleTask 2 None]
     (newWorkerManager True)
   = \<lparr>out_value = Inr (Pages [ImageBitmap [0, 3], SvgText ''<svg/>'', ImageBitmap [0, 2]]),
      out_effects = [], out_state = (newWorkerManager True)\<rparr>"
proof -
  have svg: "\<exists>task\<in>set [sampleTask 3 (Some Format_png), sampleTask 1 (Some Format_svg),
                         sampleTask 2 None]. task_format task = Some Format_svg"
    by (simp add: sampleTask_def)
  have fg: "exportPages_foreground (samplePrimitives 0) [37, 80, 68, 70]
       [sampleTask 3 (Some Format_png), sampleTask 1 (Some Format_svg), sampleTask 2 None]
     = Inr (Pages [ImageBitmap [0, 3], SvgText ''<svg/>'', ImageBitmap [0, 2]])"
    by (simp add: exportPages_foreground_def exportPagesLocally_def samplePrimitives_def
        cloneForPdf_def sampleTask_def)
  show ?thesis
    using svg_batch_runs_in_foreground [OF svg, of "samplePrimitives 0" "samplePrimitives 1"
        "\<lparr>env_newWorkerThrows = None, env_delivery = Responds\<rparr>" "[37, 80, 68, 70]"
        "newWorkerManager True"]
    unfolding fg .
qed

lemma exportPagesLocally_loop_ordered:
  "exportPagesLocally_loop F arrayBuffer tasks acc = Inr results \<Longrightarrow>
   \<exists>new. results = acc @ new \<and> map (renderingOf F arrayBuffer) tasks = map Inr new"
proof (induction tasks arbitrary: acc)
  case Nil
  then show ?case by simp
next
  case (Cons task tasks)
  from Cons.prems obtain r where r: "renderingOf F arrayBuffer task = Inr r"
    and rec: "exportPagesLocally_loop F arrayBuffer tasks (acc @ [r]) = Inr results"
    by (auto simp: renderingOf_def cloneForPdf_def split: sum.splits if_splits)
  from Cons.IH [OF rec] obtain new where "results = (acc @ [r]) @ new"
    and "map (renderingOf F arrayBuffer) tasks = map Inr new"
    by blast
  then have "results = acc @ (r # new) \<and>
      map (renderingOf F arrayBuffer) (task # tasks) = map Inr (r # new)"
    using r by simp
  then show ?case by blast
qed

lemma renderMultiplePages_loop_ordered:
  "\<not> list_ex (\<lambda>task. task_format task = Some Format_svg) tasks \<Longrightarrow>
   renderMultiplePages_loop W arrayBuffer tasks acc = Inr results \<Longrightarrow>
   \<exists>new. results = acc @ new \<and> map (renderingOf W arrayBuffer) tasks = map Inr new"
proof (induction tasks arbitrary: acc)
  case Nil
  then show ?case by simp
next
  case (Cons task tasks)
  have nosvg: "task_format task \<noteq> Some Format_svg"
    "\<not> list_ex (\<lambda>task. task_format task = Some Format_svg) tasks"
    using Cons.prems(1) by simp_all
  from Cons.prems(2) nosvg(1) obtain r where r: "renderingOf W arrayBuffer task = Inr r"
    and rec: "renderMultiplePages_loop W arrayBuffer tasks (acc @ [r]) = Inr results"
    by (auto simp: renderingOf_def split: sum.splits if_splits)
  from Cons.IH [OF nosvg(2) rec] obtain new where "results = (acc @ [r]) @ new"
    and "map (renderingOf W arrayBuffer) tasks = map Inr new"
    by blast
  then have "results = acc @ (r # new) \<and>
      map (renderingOf W arrayBuffer) (task # tasks) = map Inr (r # new)"
    using r by simp
  then show ?case by blast
qed

lemma exportPages_foreground_ordered:
  assumes "exportPages_foreground F arrayBuffer tasks = Inr data"
  shows "\<exists>results. data = Pages results \<and> map (renderingOf F arrayBuffer) tasks = map Inr results"
proof -
  from assms obtain results where res: "exportPagesLocally F arrayBuffer tasks = Inr results"
    and data: "data = Pages results"
    by (auto simp: exportPages_foreground_def split: sum.splits)
  from exportPagesLocally_loop_ordered [of F arrayBuffer tasks "[]" results] res
  have "map (renderingOf F arrayBuffer) tasks = map Inr results"
    by (simp add: exportPagesLocally_def)
  with data show ?thesis by blast
qed

lemma sendMessage_export_ordered:
  assumes "\<not> list_ex (\<lambda>task. task_format task = Some Format_svg) tasks"
    and "out_value (sendMessage W env (Msg_export arrayBuffer tasks) wm) = Inr data"
  shows "\<exists>results. data = Pages results \<and> map (renderingOf W arrayBuffer) tasks = map Inr results"
proof -
  from assms(2) have "worker_onmessage W (Msg_export arrayBuffer tasks) = Inr data"
    by (auto simp: sendMessage_def Let_def split: if_splits option.splits Delivery.splits sum.splits)
  then obtain results where res: "renderMultiplePages W arrayBuffer tasks = Inr results"
    and data: "data = Pages results"
    by (auto split: sum.splits)
  from renderMultiplePages_loop_ordered [OF assms(1), of W arrayBuffer "[]" results] res
  have "map (renderingOf W arrayBuffer) tasks = map Inr results"
    by (simp add: renderMultiplePages_def)
  with data show ?thesis by blast
qed

lemma sendMessage_success_state:
  assumes "out_value (sendMessage W env message wm) = Inr data"
  shows "out_effects (sendMessage W env message wm) \<noteq> [] \<and>
         \<not> wm_workerFailed (out_state (sendMessage W env message wm))"
  using assms
  by (auto simp: sendMessage_def Let_def split: if_splits option.splits Delivery.splits sum.splits)

text \<open>
  C6. When \<open>exportPages\<close> succeeds it returns an array with exactly one result per
  task, the \<open>i\<close>-th being the rendering of the \<open>i\<close>-th task (its page at its scale, SVG
  text or bitmap by its format): drawn by the worker when the worker answered, and by
  the calling thread when the batch ran or was re-run there.
\<close>

theorem exportPages_results_in_task_order:
  assumes "out_value (exportPages F W env arrayBuffer tasks wm) = Inr data"
  shows "\<exists>results. data = Pages results \<and> length results = length tasks \<and>
           (\<forall>i<length tasks.
              renderingOf
                (if out_effects (exportPages F W env arrayBuffer tasks wm) \<noteq> [] \<and>
                    \<not> wm_workerFailed (out_state (exportPages F W env arrayBuffer tasks wm))
                 then W else F)
                arrayBuffer (tasks ! i) = Inr (results ! i))"
proof -
  define out where "out = exportPages F W env arrayBuffer tasks wm"
  define P where "P = (if out_effects out \<noteq> [] \<and> \<not> wm_workerFailed (out_state out) then W else F)"
  have "\<exists>results. data = Pages results \<and> map (renderingOf P arrayBuffer) tasks = map Inr results"
  proof (cases "list_ex (\<lambda>task. task_format task = Some Format_svg) tasks \<or>
                \<not> wm_workerSupported wm \<or> wm_workerFailed wm")
    case True
    then have o: "out = \<lparr>out_value = exportPages_foreground F arrayBuffer tasks,
                         out_effects = [], out_state = wm\<rparr>"
      by (auto simp: out_def exportPages_def)
    then have "P = F" by (simp add: P_def)
    moreover have "exportPages_foreground F arrayBuffer tasks = Inr data"
      using assms o by (simp add: out_def)
    ultimately show ?thesis
      using exportPages_foreground_ordered by simp
  next
    case False
    define sent where "sent = sendMessage W env (Msg_export (cloneForPdf arrayBuffer) tasks) wm"
    show ?thesis
    proof (cases "out_value sent")
      case (Inl error)
      then have o: "out = \<lparr>out_value = exportPages_foreground F arrayBuffer tasks,
                           out_effects = out_effects sent,
                           out_state = (out_state sent)\<lparr>wm_workerFailed := True\<rparr>\<rparr>"
        using False by (simp add: out_def exportPages_def sent_def Let_def)
      then have "P = F" by (simp add: P_def)
      moreover have "exportPages_foreground F arrayBuffer tasks = Inr data"
        using assms o by (simp add: out_def)
      ultimately show ?thesis
        using exportPages_foreground_ordered by simp
    next
      case (Inr d)
      then have o: "out = sent"
        using False by (simp add: out_def exportPages_def sent_def Let_def)
      then have d: "out_value sent = Inr data"
        using assms by (simp add: out_def)
      have "P = W"
        using sendMessage_success_state [of W env "Msg_export (cloneForPdf arrayBuffer) tasks" wm data] d
        by (simp add: P_def o sent_def)
      moreover have "\<exists>results. data = Pages results \<and>
          map (renderingOf W (cloneForPdf arrayBuffer)) tasks = map Inr results"
        using False d by (intro sendMessage_export_ordered [of tasks W env _ wm]) (simp_all add: sent_def)
      ultimately show ?thesis by (simp add: cloneForPdf_def)
    qed
  qed
  then obtain results where data: "data = Pages results"
    and m: "map (renderingOf P arrayBuffer) tasks = map Inr results"
    by blast
  from m have len: "length results = length tasks"
    using map_eq_imp_length_eq by fastforce
  have "\<forall>i<length tasks. renderingOf P arrayBuffer (tasks ! i) = Inr (results ! i)"
  proof (intro allI impI)
    fix i assume i: "i < length tasks"
    have "map (renderingOf P arrayBuffer) tasks ! i = map Inr results ! i"
      by (simp add: m)
    then show "renderingOf P arrayBuffer (tasks ! i) = Inr (results ! i)"
      using i len by simp
  qed
  then show ?thesis
    using data len unfolding P_def out_def by blast
qed

theorem exportPages_results_in_task_order_witness:
  "out_value (exportPages (samplePrimitives 0) (samplePrimitives 1)
      \<lparr>env_newWorkerThrows = None, env_delivery = Responds\<rparr> [37, 80, 68, 70]
      [sampleTask 3 None, sampleTask 1 None, sampleTask 2 None] (newWorkerManager True))
     = Inr (Pages [ImageBitmap [1, 3], ImageBitmap [1, 1], ImageBitmap [1, 2]]) \<and>
   length [ImageBitmap [1, 3], ImageBitmap [1, 1], ImageBitmap [1, 2]]
     = length [sampleTask 3 None, sampleTask 1 None, sampleTask 2 None] \<and>
   renderingOf
     (if out_effects (exportPages (samplePrimitives 0) (samplePrimitives 1)
            \<lparr>env_newWorkerThrows = None, env_delivery = Responds\<rparr> [37, 80, 68, 70]
            [sampleTask 3 None, sampleTask 1 None, sampleTask 2 None] (newWorkerManager True)) \<noteq> [] \<and>
         \<not> wm_workerFailed (out_state (exportPages (samplePrimitives 0) (samplePrimitives 1)
            \<lparr>env_newWorkerThrows = None, env_delivery = Responds\<rparr> [37, 80, 68, 70]
            [sampleTask 3 None, sampleTask 1 None, sampleTask 2 None] (newWorkerManager True)))
      then samplePrimitives 1 else samplePrimitives 0)
     [37, 80, 68, 70] ([sampleTask 3 None, sampleTask 1 None, sampleTask 2 None] ! 0)
     = Inr (ImageBitmap [1, 3])"
proof -
  have ok: "out_value (exportPages (samplePrimitives 0) (samplePrimitives 1)
      \<lparr>env_newWorkerThrows = None, env_delivery = Responds\<rparr> [37, 80, 68, 70]
      [sampleTask 3 None, sampleTask 1 None, sampleTask 2 None] (newWorkerManager True))
     = Inr (Pages [ImageBitmap [1, 3], ImageBitmap [1, 1], ImageBitmap [1, 2]])"
    by (simp add: exportPages_def sendMessage_def newWorkerManager_def Let_def renderMultiplePages_def
        samplePrimitives_def sampleTask_def cloneForPdf_def)
  from exportPages_results_in_task_order [OF ok]
  obtain results where r: "Pages [ImageBitmap [1, 3], ImageBitmap [1, 1], ImageBitmap [1, 2]] = Pages results"
    and len: "length results = length [sampleTask 3 None, sampleTask 1 None, sampleTask 2 None]"
    and nth: "\<forall>i<length [sampleTask 3 None, sampleTask 1 None, sampleTask 2 None].
      renderingOf
     (if out_effects (exportPages (samplePrimitives 0) (samplePrimitives 1)
            \<lparr>env_newWorkerThrows = None, env_delivery = Responds\<rparr> [37, 80, 68, 70]
            [sampleTask 3 None, sampleTask 1 None, sampleTask 2 None] (newWorkerManager True)) \<noteq> [] \<and>
         \<not> wm_workerFailed (out_state (exportPages (samplePrimitives 0) (samplePrimitives 1)
            \<lparr>env_newWorkerThrows = None, env_delivery = Responds\<rparr> [37, 80, 68, 70]
            [sampleTask 3 None, sampleTask 1 None, sampleTask 2 None] (newWorkerManager True)))
      then samplePrimitives 1 else samplePrimitives 0)
     [37, 80, 68, 70] ([sampleTask 3 None, sampleTask 1 None, sampleTask 2 None] ! i)
     = Inr (results ! i)"
    by blast
  from r have results: "results = [ImageBitmap [1, 3], ImageBitmap [1, 1], ImageBitmap [1, 2]]"
    by simp
  have "(0::nat) < length [sampleTask 3 None, sampleTask 1 None, sampleTask 2 None]"
    by simp
  with nth have "renderingOf
     (if out_effects (exportPages (samplePrimitives 0) (samplePrimitives 1)
            \<lparr>env_newWorkerThrows = None, env_delivery = Responds\<rparr> [37, 80, 68, 70]
            [sampleTask 3 None, sampleTask 1 None, sampleTask 2 None] (newWorkerManager True)) \<noteq> [] \<and>
         \<not> wm_workerFailed (out_state (exportPages (samplePrimitives 0) (samplePrimitives 1)
            \<lparr>env_newWorkerThrows = None, env_delivery = Responds\<rparr> [37, 80, 68, 70]
            [sampleTask 3 None, sampleTask 1 None, sampleTask 2 None] (newWorkerManager True)))
      then samplePrimitives 1 else samplePrimitives 0)
     [37, 80, 68, 70] ([sampleTask 3 None, sampleTask 1 None, sampleTask 2 None] ! 0)
     = Inr (results ! 0)"
    by blast
  then show ?thesis
    using ok len by (simp add: results)
qed

end
